theory Spec2Isabelle
  imports Complex_Main "HOL-Library.Word" "HOL-Library.List_Lexorder" "HOL-Library.Char_ord"
begin

unbundle bit_operations_syntax

section \<open>Exceptions\<close>

text \<open>
  Exceptions are values. \<^verbatim>\<open>DoesNotExist\<close> and \<^verbatim>\<open>MultipleObjectsReturned\<close> are what a
  manager's \<^verbatim>\<open>get\<close> raises, \<^verbatim>\<open>IntegrityError\<close> is the database refusing a row that
  breaks a unique index, \<^verbatim>\<open>ValidationError\<close> is what \<^verbatim>\<open>full_clean\<close> raises,
  \<^verbatim>\<open>TypeError\<close> and \<^verbatim>\<open>ValueError\<close> are Python's own.
\<close>

datatype error =
  DoesNotExist | MultipleObjectsReturned | IntegrityError | ValidationError | TypeError | ValueError

section \<open>Block records and block record sets\<close>

text \<open>
  \<^verbatim>\<open>BlockRecord = namedtuple('BlockRecord', ['locator', 'weight', 'max_score'])\<close>.
  The locator is a text string (a list of characters, compared by code point as Python
  compares strings); weight and maximum score are Python integers. Python does not type
  the fields; float-valued weights and their textual rendering are outside this embedding.
\<close>

record BlockRecord =
  locator :: string
  weight :: int
  max_score :: int

text \<open>
  \<^verbatim>\<open>class BlockRecordSet(frozenset)\<close>. A frozenset has no duplicates and no order of its
  own, yet \<^verbatim>\<open>sorted(self, ...)\<close> iterates over it, and the order of that iteration is
  not a function of the members: in CPython it is the layout of a hash table, which
  depends on the hashes and, where two members fall on the same slot, on which of them
  was inserted first. A block record set is therefore represented by the list of its
  members in iteration order, without repetition; two such lists are the same set
  (Python's \<^verbatim>\<open>==\<close>) when they have the same members.
\<close>

type_synonym BlockRecordSet = "BlockRecord list"


text \<open>
  The constructor \<^verbatim>\<open>BlockRecordSet(iterable)\<close> inserts the records one after another; a
  record equal to one already present is dropped. The members are kept in order of first
  insertion here; the theorems about sets below hold for every enumeration of the members.
\<close>

fun frozenset_add :: "'a list \<Rightarrow> 'a \<Rightarrow> 'a list" where
  "frozenset_add s x = (if x \<in> set s then s else s @ [x])"

definition BlockRecordSet :: "BlockRecord list \<Rightarrow> BlockRecordSet" where
  "BlockRecordSet records = foldl frozenset_add [] records"

section \<open>JSON values and \<^verbatim>\<open>json.dumps\<close>\<close>

datatype json =
  JNull
  | JBool bool
  | JInt int
  | JString string
  | JArray "json list"
  | JObject "(string \<times> json) list"

definition digit_char :: "nat \<Rightarrow> char" where
  "digit_char n = char_of (48 + n)"

fun show_nat :: "nat \<Rightarrow> string" where
  "show_nat n = (if n < 10 then [digit_char n] else show_nat (n div 10) @ [digit_char (n mod 10)])"

declare show_nat.simps [simp del]

definition show_int :: "int \<Rightarrow> string" where
  "show_int i = (if i < 0 then CHR ''-'' # show_nat (nat (- i)) else show_nat (nat i))"

definition hex_char :: "nat \<Rightarrow> char" where
  "hex_char n = (if n < 10 then char_of (48 + n) else char_of (87 + n))"

text \<open>
  \<^verbatim>\<open>encode_basestring_ascii\<close>: the quote and the backslash are escaped with a backslash,
  backspace, form feed, newline, carriage return and tab have their short escapes, every
  other character outside the printable ASCII range \<^verbatim>\<open>' '..'~'\<close> becomes \<^verbatim>\<open>\uXXXX\<close> with
  four lower-case hexadecimal digits.
\<close>

definition quote_char :: char where
  "quote_char = CHR 0x22"

definition backslash :: char where
  "backslash = CHR 0x5C"

definition escape_char :: "char \<Rightarrow> string" where
  "escape_char c =
     (if c = quote_char then [backslash, quote_char]
      else if c = backslash then [backslash, backslash]
      else if c = CHR 0x08 then [backslash, CHR ''b'']
      else if c = CHR 0x0C then [backslash, CHR ''f'']
      else if c = CHR 0x0A then [backslash, CHR ''n'']
      else if c = CHR 0x0D then [backslash, CHR ''r'']
      else if c = CHR 0x09 then [backslash, CHR ''t'']
      else if 0x20 \<le> (of_char c :: nat) \<and> (of_char c :: nat) \<le> 0x7E then [c]
      else [backslash, CHR ''u'', CHR ''0'', CHR ''0'',
            hex_char ((of_char c :: nat) div 16), hex_char ((of_char c :: nat) mod 16)])"

definition encode_basestring_ascii :: "string \<Rightarrow> string" where
  "encode_basestring_ascii s = quote_char # concat (map escape_char s) @ [quote_char]"

fun join :: "string \<Rightarrow> string list \<Rightarrow> string" where
  "join sep [] = []"
| "join sep [x] = x"
| "join sep (x # y # ys) = x @ sep @ join sep (y # ys)"

text \<open>
  \<^verbatim>\<open>json.dumps(value, separators=(',', ':'), sort_keys=True)\<close>: no white space, the
  items of every dictionary in ascending order of their keys.
\<close>

fun dumps :: "json \<Rightarrow> string" where
  "dumps JNull = ''null''"
| "dumps (JBool b) = (if b then ''true'' else ''false'')"
| "dumps (JInt i) = show_int i"
| "dumps (JString s) = encode_basestring_ascii s"
| "dumps (JArray xs) = ''['' @ join '','' (map dumps xs) @ '']''"
| "dumps (JObject kvs) =
     ''{'' @ join '',''
       (map (\<lambda>(k, text). encode_basestring_ascii k @ '':'' @ text)
         (sort_key fst (map (\<lambda>(k, v). (k, dumps v)) kvs))) @ ''}''"

text \<open>\<^verbatim>\<open>block._asdict()\<close>: the fields in the order of their declaration.\<close>

definition asdict :: "BlockRecord \<Rightarrow> json" where
  "asdict block =
     JObject [(''locator'', JString (locator block)),
              (''weight'', JInt (weight block)),
              (''max_score'', JInt (max_score block))]"

text \<open>
  \<^verbatim>\<open>BlockRecordSet.to_json\<close>. Python's \<^verbatim>\<open>sorted\<close> is stable and so is \<^const>\<open>sort_key\<close>:
  records with the same locator stay in iteration order. The cache \<^verbatim>\<open>self._json\<close> holds
  the value of a pure function of an immutable set and is not modelled.
\<close>

definition to_json :: "BlockRecordSet \<Rightarrow> string" where
  "to_json self =
     (let sorted_blocks = sort_key locator self
      in dumps (JArray (map asdict sorted_blocks)))"

section \<open>The constructor on arbitrary objects\<close>

text \<open>
  \<^verbatim>\<open>BlockRecordSet.__init__\<close> passes its arguments to \<^verbatim>\<open>frozenset\<close> and clears the two
  caches. Python does not check what the iterable yields: an item is a block record or any
  other object, here one of the values that JSON can describe. Lists and dictionaries are
  not hashable; \<^verbatim>\<open>True\<close> and \<^verbatim>\<open>False\<close> are equal to 1 and 0.
\<close>

datatype item = Record BlockRecord | Other json

fun hashable :: "item \<Rightarrow> bool" where
  "hashable (Record r) = True"
| "hashable (Other (JArray xs)) = False"
| "hashable (Other (JObject kvs)) = False"
| "hashable (Other v) = True"

fun py_key :: "item \<Rightarrow> item" where
  "py_key (Other (JBool b)) = Other (JInt (if b then 1 else 0))"
| "py_key x = x"

fun frozenset_add_item :: "item list \<Rightarrow> item \<Rightarrow> item list" where
  "frozenset_add_item s x = (if py_key x \<in> py_key ` set s then s else s @ [x])"

definition BlockRecordSet_init :: "item list \<Rightarrow> error + item list" where
  "BlockRecordSet_init iterable =
     (if list_all hashable iterable then Inr (foldl frozenset_add_item [] iterable)
      else Inl TypeError)"

section \<open>SHA-256 and base64\<close>

text \<open>
  \<^verbatim>\<open>hashlib.sha256\<close> as FIPS 180-4 specifies it, on bytes, and \<^verbatim>\<open>base64.b64encode\<close> with
  the standard alphabet.
\<close>

type_synonym byte = "8 word"
type_synonym u32 = "32 word"

definition rotr :: "nat \<Rightarrow> u32 \<Rightarrow> u32" where
  "rotr n x = (drop_bit n x) OR (push_bit (32 - n) x)"

definition Ch :: "u32 \<Rightarrow> u32 \<Rightarrow> u32 \<Rightarrow> u32" where
  "Ch x y z = (x AND y) XOR (NOT x AND z)"

definition Maj :: "u32 \<Rightarrow> u32 \<Rightarrow> u32 \<Rightarrow> u32" where
  "Maj x y z = (x AND y) XOR (x AND z) XOR (y AND z)"

definition Sigma0 :: "u32 \<Rightarrow> u32" where
  "Sigma0 x = rotr 2 x XOR rotr 13 x XOR rotr 22 x"

definition Sigma1 :: "u32 \<Rightarrow> u32" where
  "Sigma1 x = rotr 6 x XOR rotr 11 x XOR rotr 25 x"

definition sigma0 :: "u32 \<Rightarrow> u32" where
  "sigma0 x = rotr 7 x XOR rotr 18 x XOR drop_bit 3 x"

definition sigma1 :: "u32 \<Rightarrow> u32" where
  "sigma1 x = rotr 17 x XOR rotr 19 x XOR drop_bit 10 x"

definition sha256_K :: "u32 list" where
  "sha256_K =
   [1116352408, 1899447441, 3049323471, 3921009573, 961987163, 1508970993, 2453635748, 2870763221,
    3624381080, 310598401, 607225278, 1426881987, 1925078388, 2162078206, 2614888103, 3248222580,
    3835390401, 4022224774, 264347078, 604807628, 770255983, 1249150122, 1555081692, 1996064986,
    2554220882, 2821834349, 2952996808, 3210313671, 3336571891, 3584528711, 113926993, 338241895,
    666307205, 773529912, 1294757372, 1396182291, 1695183700, 1986661051, 2177026350, 2456956037,
    2730485921, 2820302411, 3259730800, 3345764771, 3516065817, 3600352804, 4094571909, 275423344,
    430227734, 506948616, 659060556, 883997877, 958139571, 1322822218, 1537002063, 1747873779,
    1955562222, 2024104815, 2227730452, 2361852424, 2428436474, 2756734187, 3204031479, 3329325298]"

type_synonym sha_state = "u32 \<times> u32 \<times> u32 \<times> u32 \<times> u32 \<times> u32 \<times> u32 \<times> u32"

definition sha256_init :: sha_state where
  "sha256_init = (1779033703, 3144134277, 1013904242, 2773480762,
                  1359893119, 2600822924, 528734635, 1541459225)"

fun be32 :: "byte list \<Rightarrow> u32" where
  "be32 (a # b # c # d # _) =
     push_bit 24 (ucast a) OR push_bit 16 (ucast b) OR push_bit 8 (ucast c) OR ucast d"
| "be32 _ = 0"

fun words_of :: "nat \<Rightarrow> byte list \<Rightarrow> u32 list" where
  "words_of 0 bs = []"
| "words_of (Suc n) bs = be32 bs # words_of n (drop 4 bs)"

fun schedule :: "nat \<Rightarrow> u32 list \<Rightarrow> u32 list" where
  "schedule 0 w = w"
| "schedule (Suc n) w =
     (let t = length w in
      schedule n (w @ [sigma1 (w ! (t - 2)) + w ! (t - 7) + sigma0 (w ! (t - 15)) + w ! (t - 16)]))"

fun sha_round :: "sha_state \<Rightarrow> u32 \<times> u32 \<Rightarrow> sha_state" where
  "sha_round (a, b, c, d, e, f, g, h) (k, w) =
     (let t1 = h + Sigma1 e + Ch e f g + k + w;
          t2 = Sigma0 a + Maj a b c
      in (t1 + t2, a, b, c, d + t1, e, f, g))"

fun sha_add :: "sha_state \<Rightarrow> sha_state \<Rightarrow> sha_state" where
  "sha_add (a, b, c, d, e, f, g, h) (a', b', c', d', e', f', g', h') =
     (a + a', b + b', c + c', d + d', e + e', f + f', g + g', h + h')"

definition compress :: "sha_state \<Rightarrow> byte list \<Rightarrow> sha_state" where
  "compress st block =
     sha_add st (foldl sha_round st (zip sha256_K (schedule 48 (words_of 16 block))))"

definition len_bytes :: "nat \<Rightarrow> byte list" where
  "len_bytes n =
     (let bits = push_bit 3 (of_nat n :: 64 word) in
      map (\<lambda>i. ucast (drop_bit (8 * i) bits)) [7, 6, 5, 4, 3, 2, 1, 0])"

definition sha_pad :: "byte list \<Rightarrow> byte list" where
  "sha_pad m = m @ [0x80] @ replicate ((119 - length m mod 64) mod 64) 0 @ len_bytes (length m)"

fun sha_blocks :: "nat \<Rightarrow> sha_state \<Rightarrow> byte list \<Rightarrow> sha_state" where
  "sha_blocks 0 st bs = st"
| "sha_blocks (Suc n) st bs = sha_blocks n (compress st (take 64 bs)) (drop 64 bs)"

fun word_bytes :: "u32 \<Rightarrow> byte list" where
  "word_bytes w = [ucast (drop_bit 24 w), ucast (drop_bit 16 w), ucast (drop_bit 8 w), ucast w]"

fun state_bytes :: "sha_state \<Rightarrow> byte list" where
  "state_bytes (a, b, c, d, e, f, g, h) =
     word_bytes a @ word_bytes b @ word_bytes c @ word_bytes d @
     word_bytes e @ word_bytes f @ word_bytes g @ word_bytes h"

definition sha256 :: "byte list \<Rightarrow> byte list" where
  "sha256 m = (let p = sha_pad m in state_bytes (sha_blocks (length p div 64) sha256_init p))"

definition b64_alphabet :: string where
  "b64_alphabet = ''ABCDEFGHIJKLMNOPQRSTUVWXYZabcdefghijklmnopqrstuvwxyz0123456789+/''"

definition b64_char :: "byte \<Rightarrow> char" where
  "b64_char v = b64_alphabet ! unat (v AND 63)"

fun b64encode :: "byte list \<Rightarrow> string" where
  "b64encode [] = []"
| "b64encode [a] =
     [b64_char (drop_bit 2 a), b64_char (push_bit 4 (a AND 3)), CHR ''='', CHR ''='']"
| "b64encode [a, b] =
     [b64_char (drop_bit 2 a), b64_char (push_bit 4 (a AND 3) OR drop_bit 4 b),
      b64_char (push_bit 2 (b AND 15)), CHR ''='']"
| "b64encode (a # b # c # rest) =
     [b64_char (drop_bit 2 a), b64_char (push_bit 4 (a AND 3) OR drop_bit 4 b),
      b64_char (push_bit 2 (b AND 15) OR drop_bit 6 c), b64_char (c AND 63)] @ b64encode rest"

text \<open>
  Decoding, the inverse that RFC 4648 describes: four characters give three bytes, and one
  or two padding characters at the end stand for a last group of two bytes or one.
\<close>

fun index_of :: "'a \<Rightarrow> 'a list \<Rightarrow> nat option" where
  "index_of x [] = None"
| "index_of x (y # ys) = (if x = y then Some 0 else map_option Suc (index_of x ys))"

definition b64_value :: "char \<Rightarrow> byte option" where
  "b64_value c = map_option of_nat (index_of c b64_alphabet)"

fun b64decode :: "string \<Rightarrow> byte list option" where
  "b64decode [] = Some []"
| "b64decode (c0 # c1 # c2 # c3 # rest) =
     (if c2 = CHR ''='' \<and> c3 = CHR ''='' \<and> rest = [] then
        (case (b64_value c0, b64_value c1) of
           (Some v0, Some v1) \<Rightarrow> Some [push_bit 2 v0 OR drop_bit 4 v1]
         | _ \<Rightarrow> None)
      else if c3 = CHR ''='' \<and> rest = [] then
        (case (b64_value c0, b64_value c1, b64_value c2) of
           (Some v0, Some v1, Some v2) \<Rightarrow>
             Some [push_bit 2 v0 OR drop_bit 4 v1, push_bit 4 v1 OR drop_bit 2 v2]
         | _ \<Rightarrow> None)
      else
        (case (b64_value c0, b64_value c1, b64_value c2, b64_value c3) of
           (Some v0, Some v1, Some v2, Some v3) \<Rightarrow>
             map_option
               ((@) [push_bit 2 v0 OR drop_bit 4 v1, push_bit 4 v1 OR drop_bit 2 v2,
                     push_bit 6 v2 OR v3])
               (b64decode rest)
         | _ \<Rightarrow> None))"
| "b64decode _ = None"

definition byte_of_char :: "char \<Rightarrow> byte" where
  "byte_of_char c = of_nat (of_char c)"

text \<open>
  \<^verbatim>\<open>BlockRecordSet.to_hash\<close>: \<^verbatim>\<open>b64encode(sha256(self.to_json()).digest())\<close>; the cache
  \<^verbatim>\<open>self._hash\<close> is not modelled, as for \<^verbatim>\<open>to_json\<close>.
\<close>

definition to_hash :: "BlockRecordSet \<Rightarrow> string" where
  "to_hash self = b64encode (sha256 (map byte_of_char (to_json self)))"

section \<open>The tables\<close>

text \<open>The model \<^verbatim>\<open>VisibleBlocks\<close>: \<^verbatim>\<open>blocks_json\<close> and the unique \<^verbatim>\<open>hashed\<close>.\<close>

record VisibleBlocks =
  blocks_json :: string
  hashed :: string

text \<open>A usage key knows the key of its course (\<^verbatim>\<open>usage_key.course_key\<close>).\<close>

record UsageKey =
  course_key :: string
  block_id :: string

text \<open>
  The model \<^verbatim>\<open>PersistentSubsectionGrade\<close>. The primary key is \<^verbatim>\<open>None\<close> until the row is
  saved; \<^verbatim>\<open>visible_blocks_id\<close> is the column \<^verbatim>\<open>visible_blocks_hash\<close> of the foreign key.
  The two time stamps of \<^verbatim>\<open>TimeStampedModel\<close> are kept by the library and left out.
\<close>

record PersistentSubsectionGrade =
  grade_id :: "nat option"
  user_id :: int
  course_id :: string
  usage_key :: UsageKey
  subtree_edited_date :: int
  course_version :: string
  earned_all :: real
  possible_all :: real
  earned_graded :: real
  possible_graded :: real
  visible_blocks_id :: string

datatype log_level = ERROR | WARNING | INFO

text \<open>
  What one call sees of the world: the rows of both tables that its transaction can
  read, the hashes of \<^verbatim>\<open>VisibleBlocks\<close> rows that other transactions have committed since
  (under repeatable read a \<^verbatim>\<open>SELECT\<close> does not return them, while the unique index on
  \<^verbatim>\<open>hashed\<close> already refuses a second such row), the next free primary key and the log.
\<close>

record state =
  visible_blocks_rows :: "VisibleBlocks list"
  concurrent_hashes :: "string list"
  grade_rows :: "PersistentSubsectionGrade list"
  next_id :: nat
  log_records :: "(log_level \<times> string) list"

subsection \<open>The manager methods of the library\<close>

definition get_visible_blocks :: "state \<Rightarrow> string \<Rightarrow> error + VisibleBlocks" where
  "get_visible_blocks st h =
     (case filter (\<lambda>row. hashed row = h) (visible_blocks_rows st) of
        [] \<Rightarrow> Inl DoesNotExist
      | [row] \<Rightarrow> Inr row
      | _ \<Rightarrow> Inl MultipleObjectsReturned)"

definition insert_visible_blocks :: "state \<Rightarrow> VisibleBlocks \<Rightarrow> error + state" where
  "insert_visible_blocks st row =
     (if hashed row \<in> set (map hashed (visible_blocks_rows st)) \<union> set (concurrent_hashes st)
      then Inl IntegrityError
      else Inr (st\<lparr>visible_blocks_rows := visible_blocks_rows st @ [row]\<rparr>))"

text \<open>
  \<^verbatim>\<open>QuerySet.get_or_create(hashed=h, defaults={'blocks_json': j})\<close>: look the row up; if
  there is none, insert it; if the insertion breaks the unique index, look it up once
  more and, if it is still not to be seen, raise the \<^verbatim>\<open>IntegrityError\<close> again.
\<close>

definition get_or_create :: "state \<Rightarrow> string \<Rightarrow> string \<Rightarrow> (error + VisibleBlocks) \<times> state" where
  "get_or_create st h j =
     (case get_visible_blocks st h of
        Inr row \<Rightarrow> (Inr row, st)
      | Inl DoesNotExist \<Rightarrow>
          (case insert_visible_blocks st \<lparr>blocks_json = j, hashed = h\<rparr> of
             Inr st' \<Rightarrow> (Inr \<lparr>blocks_json = j, hashed = h\<rparr>, st')
           | Inl e \<Rightarrow>
               (case get_visible_blocks st h of
                  Inr row \<Rightarrow> (Inr row, st)
                | Inl DoesNotExist \<Rightarrow> (Inl e, st)
                | Inl e' \<Rightarrow> (Inl e', st)))
      | Inl e \<Rightarrow> (Inl e, st))"

text \<open>\<^verbatim>\<open>objects.get(user_id=..., usage_key=...)\<close> on the grades.\<close>

definition get_grade :: "state \<Rightarrow> int \<Rightarrow> UsageKey \<Rightarrow> error + PersistentSubsectionGrade" where
  "get_grade st uid key =
     (case filter (\<lambda>g. user_id g = uid \<and> usage_key g = key) (grade_rows st) of
        [] \<Rightarrow> Inl DoesNotExist
      | [g] \<Rightarrow> Inr g
      | _ \<Rightarrow> Inl MultipleObjectsReturned)"

definition same_key :: "PersistentSubsectionGrade \<Rightarrow> PersistentSubsectionGrade \<Rightarrow> bool" where
  "same_key g g' =
     (user_id g = user_id g' \<and> course_id g = course_id g' \<and> usage_key g = usage_key g')"

text \<open>
  \<^verbatim>\<open>grade.full_clean()\<close>: of the checks of the library, the two that consult the tables.
  The foreign key must point to a row that can be read, and
  \<^verbatim>\<open>unique_together = (('user_id', 'course_id', 'usage_key'), )\<close> must not be taken by
  another row (a row that is already saved is not compared with itself). The checks of
  the format of single fields are taken to pass.
\<close>

definition full_clean :: "state \<Rightarrow> PersistentSubsectionGrade \<Rightarrow> error + unit" where
  "full_clean st g =
     (if visible_blocks_id g \<notin> set (map hashed (visible_blocks_rows st)) then Inl ValidationError
      else if list_ex (\<lambda>g'. same_key g g' \<and> (grade_id g = None \<or> grade_id g' \<noteq> grade_id g))
                (grade_rows st)
      then Inl ValidationError
      else Inr ())"

text \<open>
  \<^verbatim>\<open>grade.save()\<close>: a row without primary key is inserted and gets the next one, unless
  the unique index refuses it; a row with a primary key replaces the row of that key.
\<close>

definition save :: "state \<Rightarrow> PersistentSubsectionGrade \<Rightarrow> (error + PersistentSubsectionGrade) \<times> state" where
  "save st g =
     (case grade_id g of
        None \<Rightarrow>
          (if list_ex (same_key g) (grade_rows st) then (Inl IntegrityError, st)
           else (let g' = g\<lparr>grade_id := Some (next_id st)\<rparr>
                 in (Inr g', st\<lparr>grade_rows := grade_rows st @ [g'], next_id := Suc (next_id st)\<rparr>)))
      | Some i \<Rightarrow>
          (Inr g, st\<lparr>grade_rows := map (\<lambda>row. if grade_id row = Some i then g else row) (grade_rows st)\<rparr>))"

subsection \<open>\<^verbatim>\<open>VisibleBlocksQuerySet\<close>\<close>

text \<open>
  \<^verbatim>\<open>create_from_blockrecords\<close>. The argument is an iterable of records or a set already;
  constructing a set from a set changes nothing (\<open>BlockRecordSet_distinct\<close> below), so
  the test \<^verbatim>\<open>isinstance(blocks, BlockRecordSet)\<close> is not a branch of its own.
\<close>

definition create_from_blockrecords :: "state \<Rightarrow> BlockRecord list \<Rightarrow> (error + VisibleBlocks) \<times> state" where
  "create_from_blockrecords st blocks =
     (let blocks = BlockRecordSet blocks
      in get_or_create st (to_hash blocks) (to_json blocks))"

text \<open>\<^verbatim>\<open>VisibleBlocks.blocks\<close> is defined with \<^verbatim>\<open>from_json\<close> below.\<close>

subsection \<open>\<^verbatim>\<open>PersistentSubsectionGradeQuerySet\<close> and \<^verbatim>\<open>PersistentSubsectionGrade\<close>\<close>

text \<open>The keyword arguments of \<^verbatim>\<open>create\<close>, \<^verbatim>\<open>update\<close> and \<^verbatim>\<open>save_grade\<close>.\<close>

record kwargs =
  kw_user_id :: int
  kw_usage_key :: UsageKey
  kw_course_version :: string
  kw_subtree_edited_date :: int
  kw_earned_all :: real
  kw_possible_all :: real
  kw_earned_graded :: real
  kw_possible_graded :: real
  kw_visible_blocks :: "BlockRecord list"

text \<open>
  The block that \<^verbatim>\<open>create\<close> (lines 147 to 155) and \<^verbatim>\<open>update\<close> (lines 268 to 276) share:
  \<^verbatim>\<open>
  try:
      visible_blocks_model = VisibleBlocks.objects.create_from_blockrecords(blocks=visible_blocks)
  except IntegrityError:
      visible_blocks_hash = visible_blocks.to_hash()
  else:
      visible_blocks_hash = visible_blocks_model.hashed
  \<close>
\<close>

definition visible_blocks_hash_of :: "state \<Rightarrow> BlockRecordSet \<Rightarrow> (error + string) \<times> state" where
  "visible_blocks_hash_of st visible_blocks =
     (case create_from_blockrecords st visible_blocks of
        (Inr visible_blocks_model, st') \<Rightarrow> (Inr (hashed visible_blocks_model), st')
      | (Inl IntegrityError, st') \<Rightarrow> (Inr (to_hash visible_blocks), st')
      | (Inl e, st') \<Rightarrow> (Inl e, st'))"

text \<open>\<^verbatim>\<open>PersistentSubsectionGradeQuerySet.create\<close>.\<close>

definition create :: "state \<Rightarrow> kwargs \<Rightarrow> (error + PersistentSubsectionGrade) \<times> state" where
  "create st kw =
     (let visible_blocks = BlockRecordSet (kw_visible_blocks kw)
      in case visible_blocks_hash_of st visible_blocks of
           (Inl e, st1) \<Rightarrow> (Inl e, st1)
         | (Inr visible_blocks_hash, st1) \<Rightarrow>
             (let grade = \<lparr>grade_id = None,
                           user_id = kw_user_id kw,
                           course_id = course_key (kw_usage_key kw),
                           usage_key = kw_usage_key kw,
                           subtree_edited_date = kw_subtree_edited_date kw,
                           course_version = kw_course_version kw,
                           earned_all = kw_earned_all kw,
                           possible_all = kw_possible_all kw,
                           earned_graded = kw_earned_graded kw,
                           possible_graded = kw_possible_graded kw,
                           visible_blocks_id = visible_blocks_hash\<rparr>
              in case full_clean st1 grade of
                   Inl e \<Rightarrow> (Inl e, st1)
                 | Inr _ \<Rightarrow> save st1 grade))"

text \<open>\<^verbatim>\<open>PersistentSubsectionGrade.read\<close>.\<close>

definition read :: "state \<Rightarrow> int \<Rightarrow> UsageKey \<Rightarrow> error + PersistentSubsectionGrade" where
  "read st uid key = get_grade st uid key"

definition race_message :: string where
  "race_message =
     ''Race condition hit in robust grading data model. Unrecoverable repeatable-read issue.''"

text \<open>
  \<^verbatim>\<open>PersistentSubsectionGrade.update\<close>. It returns nothing; the state that comes with an
  error is the state at the moment of the \<^verbatim>\<open>raise\<close>.
\<close>

definition update :: "state \<Rightarrow> kwargs \<Rightarrow> (error + unit) \<times> state" where
  "update st kw =
     (case get_grade st (kw_user_id kw) (kw_usage_key kw) of
        Inl e \<Rightarrow> (Inl e, st)
      | Inr grade \<Rightarrow>
          (let visible_blocks = BlockRecordSet (kw_visible_blocks kw)
           in case visible_blocks_hash_of st visible_blocks of
                (Inl e, st1) \<Rightarrow> (Inl e, st1)
              | (Inr visible_blocks_hash, st1) \<Rightarrow>
                  (case create_from_blockrecords st1 visible_blocks of
                     (Inl IntegrityError, st2) \<Rightarrow>
                       (Inl IntegrityError,
                        st2\<lparr>log_records := log_records st2 @ [(ERROR, race_message)]\<rparr>)
                   | (Inl e, st2) \<Rightarrow> (Inl e, st2)
                   | (Inr visible_blocks_model, st2) \<Rightarrow>
                       (case save st2
                               (grade\<lparr>course_version := kw_course_version kw,
                                      subtree_edited_date := kw_subtree_edited_date kw,
                                      earned_all := kw_earned_all kw,
                                      possible_all := kw_possible_all kw,
                                      earned_graded := kw_earned_graded kw,
                                      possible_graded := kw_possible_graded kw,
                                      visible_blocks_id := visible_blocks_hash\<rparr>) of
                          (Inl e, st3) \<Rightarrow> (Inl e, st3)
                        | (Inr _, st3) \<Rightarrow> (Inr (), st3)))))"



text \<open>
  The states that the operations produce from empty tables: the unique indexes hold, saved
  rows have primary keys below the next free one, and \<^verbatim>\<open>course_id\<close> is the course of
  \<^verbatim>\<open>usage_key\<close>.
\<close>

definition wf_grade :: "nat \<Rightarrow> PersistentSubsectionGrade \<Rightarrow> bool" where
  "wf_grade n g =
     ((case grade_id g of None \<Rightarrow> False | Some i \<Rightarrow> i < n)
      \<and> course_id g = course_key (usage_key g))"

definition wf_state :: "state \<Rightarrow> bool" where
  "wf_state st =
     (distinct (map hashed (visible_blocks_rows st) @ concurrent_hashes st)
      \<and> distinct (map grade_id (grade_rows st))
      \<and> distinct (map (\<lambda>g. (user_id g, usage_key g)) (grade_rows st))
      \<and> list_all (wf_grade (next_id st)) (grade_rows st))"

definition empty_state :: state where
  "empty_state =
     \<lparr>visible_blocks_rows = [], concurrent_hashes = [], grade_rows = [], next_id = 1,
      log_records = []\<rparr>"

text \<open>A grade row for a user and a usage key exists.\<close>

definition grade_exists :: "state \<Rightarrow> int \<Rightarrow> UsageKey \<Rightarrow> bool" where
  "grade_exists st uid key = list_ex (\<lambda>g. user_id g = uid \<and> usage_key g = key) (grade_rows st)"

text \<open>The row with primary key \<open>i\<close> that carries exactly the values of the arguments.\<close>

definition stored_grade :: "nat option \<Rightarrow> kwargs \<Rightarrow> PersistentSubsectionGrade" where
  "stored_grade i kw =
     \<lparr>grade_id = i,
      user_id = kw_user_id kw,
      course_id = course_key (kw_usage_key kw),
      usage_key = kw_usage_key kw,
      subtree_edited_date = kw_subtree_edited_date kw,
      course_version = kw_course_version kw,
      earned_all = kw_earned_all kw,
      possible_all = kw_possible_all kw,
      earned_graded = kw_earned_graded kw,
      possible_graded = kw_possible_graded kw,
      visible_blocks_id = to_hash (BlockRecordSet (kw_visible_blocks kw))\<rparr>"


text \<open>The state after a resolution that did not fail.\<close>

definition resolved :: "state \<Rightarrow> BlockRecord list \<Rightarrow> state" where
  "resolved st records =
     (let h = to_hash (BlockRecordSet records)
      in if h \<in> set (map hashed (visible_blocks_rows st)) \<or> h \<in> set (concurrent_hashes st) then st
         else st\<lparr>visible_blocks_rows := visible_blocks_rows st @
                   [\<lparr>blocks_json = to_json (BlockRecordSet records), hashed = h\<rparr>]\<rparr>)"


section \<open>Example values\<close>

definition block_b1 :: BlockRecord where
  "block_b1 = \<lparr>locator = ''b1'', weight = 1, max_score = 10\<rparr>"



definition seq1 :: UsageKey where
  "seq1 = \<lparr>course_key = ''course-v1:edX+DemoX+Demo'', block_id = ''seq1''\<rparr>"

definition grade_8_of_10 :: kwargs where
  "grade_8_of_10 =
     \<lparr>kw_user_id = 42, kw_usage_key = seq1, kw_course_version = ''v1'',
      kw_subtree_edited_date = 1467331200,
      kw_earned_all = 8, kw_possible_all = 10, kw_earned_graded = 8, kw_possible_graded = 10,
      kw_visible_blocks = [block_b1]\<rparr>"

definition grade_9_of_10 :: kwargs where
  "grade_9_of_10 =
     \<lparr>kw_user_id = 42, kw_usage_key = seq1, kw_course_version = ''v2'',
      kw_subtree_edited_date = 1467417600,
      kw_earned_all = 9, kw_possible_all = 10, kw_earned_graded = 9, kw_possible_graded = 10,
      kw_visible_blocks = [block_b1]\<rparr>"

text \<open>The state after \<^verbatim>\<open>create\<close> with the first arguments on empty tables.\<close>

definition state_with_grade :: state where
  "state_with_grade =
     \<lparr>visible_blocks_rows = [\<lparr>blocks_json = to_json [block_b1], hashed = to_hash [block_b1]\<rparr>],
      concurrent_hashes = [],
      grade_rows = [stored_grade (Some 1) grade_8_of_10],
      next_id = 2,
      log_records = []\<rparr>"

text \<open>
  A grade row exists, and another transaction has just committed the row of
  \<^verbatim>\<open>VisibleBlocks\<close> for the blocks of the grade that is about to be saved.
\<close>

definition state_with_race :: state where
  "state_with_race =
     \<lparr>visible_blocks_rows = [],
      concurrent_hashes = [to_hash [block_b1]],
      grade_rows = [stored_grade (Some 1) grade_8_of_10],
      next_id = 2,
      log_records = []\<rparr>"

section \<open>Properties\<close>

lemma length_state_bytes: "length (state_bytes st) = 32"
  by (cases st) auto

lemma length_sha256: "length (sha256 m) = 32"
  by (simp add: sha256_def Let_def length_state_bytes del: state_bytes.simps)

lemma length_b64encode: "length (b64encode bs) = 4 * ((length bs + 2) div 3)"
proof (induction bs rule: b64encode.induct)
  case (4 a b c rest)
  have "(5 + length rest) div 3 = Suc ((length rest + 2) div 3)"
    by arith
  with 4 show ?case by simp
qed simp_all

text \<open>
  C10. For every block record set, the empty one included, the string that
  \<^verbatim>\<open>to_hash\<close> returns is exactly 44 characters long: the length that the column
  \<^verbatim>\<open>hashed = models.CharField(max_length=44, unique=True)\<close> admits.
\<close>

theorem to_hash_length_44: "length (to_hash self) = 44"
  by (simp add: to_hash_def length_b64encode length_sha256)

lemma filter_hd_mem: "filter P xs = y # ys \<Longrightarrow> P y \<and> y \<in> set xs"
proof -
  assume "filter P xs = y # ys"
  then have "y \<in> set (filter P xs)" by simp
  then show ?thesis by simp
qed

lemma get_visible_blocks_cases:
  "(get_visible_blocks st h = Inl DoesNotExist \<and> h \<notin> set (map hashed (visible_blocks_rows st)))
   \<or> (get_visible_blocks st h = Inl MultipleObjectsReturned \<and> h \<in> set (map hashed (visible_blocks_rows st)))
   \<or> (\<exists>row. get_visible_blocks st h = Inr row \<and> hashed row = h \<and> row \<in> set (visible_blocks_rows st))"
proof (cases "filter (\<lambda>row. hashed row = h) (visible_blocks_rows st)")
  case Nil
  then show ?thesis
    by (auto simp: get_visible_blocks_def filter_empty_conv)
next
  case (Cons y ys)
  from filter_hd_mem [OF Cons] have "hashed y = h" "y \<in> set (visible_blocks_rows st)"
    by simp_all
  with Cons show ?thesis
    by (cases ys) (auto simp: get_visible_blocks_def)
qed

lemma get_visible_blocks_hashed:
  "get_visible_blocks st h = Inr row \<Longrightarrow> hashed row = h \<and> row \<in> set (visible_blocks_rows st)"
  using get_visible_blocks_cases [of st h] by auto

lemma get_visible_blocks_absent:
  "get_visible_blocks st h = Inl DoesNotExist \<longleftrightarrow> h \<notin> set (map hashed (visible_blocks_rows st))"
  using get_visible_blocks_cases [of st h] by auto

lemma get_or_create_hashed:
  "get_or_create st h j = (Inr row, st') \<Longrightarrow> hashed row = h"
  using get_visible_blocks_cases [of st h]
  by (auto simp: get_or_create_def insert_visible_blocks_def split: if_splits)

lemma get_or_create_error:
  "get_or_create st h j = (Inl e, st') \<Longrightarrow> st' = st"
  using get_visible_blocks_cases [of st h]
  by (auto simp: get_or_create_def insert_visible_blocks_def split: if_splits)

lemma get_or_create_frame:
  "get_or_create st h j = (r, st') \<Longrightarrow>
     grade_rows st' = grade_rows st \<and> log_records st' = log_records st \<and>
     concurrent_hashes st' = concurrent_hashes st \<and> next_id st' = next_id st"
  using get_visible_blocks_cases [of st h]
  by (auto simp: get_or_create_def insert_visible_blocks_def split: if_splits)

lemma get_or_create_IntegrityError:
  "get_or_create st h j = (Inl IntegrityError, st') \<longleftrightarrow>
     st' = st \<and> h \<notin> set (map hashed (visible_blocks_rows st)) \<and> h \<in> set (concurrent_hashes st)"
  using get_visible_blocks_cases [of st h]
  by (auto simp: get_or_create_def insert_visible_blocks_def split: if_splits)


subsection \<open>Block record sets\<close>

lemma foldl_frozenset_add_set: "set (foldl frozenset_add acc xs) = set acc \<union> set xs"
  by (induction xs arbitrary: acc) auto

lemma foldl_frozenset_add_distinct: "distinct acc \<Longrightarrow> distinct (foldl frozenset_add acc xs)"
  by (induction xs arbitrary: acc) auto

lemma foldl_frozenset_add_id: "distinct (acc @ xs) \<Longrightarrow> foldl frozenset_add acc xs = acc @ xs"
  by (induction xs arbitrary: acc) auto

lemma set_BlockRecordSet: "set (BlockRecordSet records) = set records"
  by (simp add: BlockRecordSet_def foldl_frozenset_add_set)

lemma distinct_BlockRecordSet: "distinct (BlockRecordSet records)"
  by (simp add: BlockRecordSet_def foldl_frozenset_add_distinct)

lemma BlockRecordSet_distinct: "distinct s \<Longrightarrow> BlockRecordSet s = s"
  using foldl_frozenset_add_id [of "[]" s] by (simp add: BlockRecordSet_def)

lemma BlockRecordSet_idem: "BlockRecordSet (BlockRecordSet records) = BlockRecordSet records"
  by (simp add: BlockRecordSet_distinct distinct_BlockRecordSet)

subsection \<open>Resolution\<close>

lemma distinct_map_filter_le1:
  "distinct (map f xs) \<Longrightarrow> length (filter (\<lambda>x. f x = k) xs) \<le> 1"
proof (induction xs)
  case Nil
  then show ?case by simp
next
  case (Cons x xs)
  show ?case
  proof (cases "f x = k")
    case True
    from Cons.prems have "f x \<notin> f ` set xs" by simp
    then have "\<forall>y\<in>set xs. f y \<noteq> f x" by (metis image_eqI)
    with True have "filter (\<lambda>x. f x = k) xs = []"
      by (simp add: filter_empty_conv)
    with True show ?thesis by simp
  next
    case False
    with Cons show ?thesis by simp
  qed
qed

lemma get_visible_blocks_present:
  assumes "distinct (map hashed (visible_blocks_rows st))"
    and "h \<in> set (map hashed (visible_blocks_rows st))"
  shows "\<exists>row. get_visible_blocks st h = Inr row \<and> hashed row = h \<and> row \<in> set (visible_blocks_rows st)"
proof -
  from distinct_map_filter_le1 [OF assms(1), of h]
  have "get_visible_blocks st h \<noteq> Inl MultipleObjectsReturned"
    by (auto simp: get_visible_blocks_def split: list.splits)
  with assms(2) get_visible_blocks_cases [of st h] show ?thesis by auto
qed

lemma get_or_create_present:
  assumes "distinct (map hashed (visible_blocks_rows st))"
    and "h \<in> set (map hashed (visible_blocks_rows st))"
  shows "\<exists>row. get_or_create st h j = (Inr row, st) \<and> hashed row = h"
  using get_visible_blocks_present [OF assms] by (auto simp: get_or_create_def)

lemma get_or_create_conflict:
  assumes "h \<notin> set (map hashed (visible_blocks_rows st))" and "h \<in> set (concurrent_hashes st)"
  shows "get_or_create st h j = (Inl IntegrityError, st)"
  using assms get_or_create_IntegrityError by blast

lemma get_or_create_fresh:
  assumes "h \<notin> set (map hashed (visible_blocks_rows st))" and "h \<notin> set (concurrent_hashes st)"
  shows "get_or_create st h j =
           (Inr \<lparr>blocks_json = j, hashed = h\<rparr>,
            st\<lparr>visible_blocks_rows := visible_blocks_rows st @ [\<lparr>blocks_json = j, hashed = h\<rparr>]\<rparr>)"
  using assms get_visible_blocks_absent [of st h]
  by (simp add: get_or_create_def insert_visible_blocks_def)

lemma create_from_blockrecords_set:
  "create_from_blockrecords st (BlockRecordSet records) = create_from_blockrecords st records"
  by (simp add: create_from_blockrecords_def BlockRecordSet_idem)

lemma visible_blocks_hash_of_value:
  "visible_blocks_hash_of st (BlockRecordSet records) = (Inr h, st') \<Longrightarrow>
     h = to_hash (BlockRecordSet records)"
  by (auto simp: visible_blocks_hash_of_def create_from_blockrecords_def Let_def BlockRecordSet_idem
           split: prod.splits sum.splits error.splits dest: get_or_create_hashed)


subsection \<open>Grades\<close>

lemma get_grade_absent:
  "get_grade st uid key = Inl DoesNotExist \<longleftrightarrow> \<not> grade_exists st uid key"
proof (cases "filter (\<lambda>g. user_id g = uid \<and> usage_key g = key) (grade_rows st)")
  case Nil
  then show ?thesis
    by (auto simp: get_grade_def grade_exists_def list_ex_iff filter_empty_conv)
next
  case (Cons y ys)
  from filter_hd_mem [OF Cons] have "grade_exists st uid key"
    by (auto simp: grade_exists_def list_ex_iff)
  with Cons show ?thesis
    by (cases ys) (auto simp: get_grade_def)
qed


lemma get_grade_present:
  assumes "distinct (map (\<lambda>g. (user_id g, usage_key g)) (grade_rows st))"
    and "grade_exists st uid key"
  shows "\<exists>g. get_grade st uid key = Inr g"
proof -
  from distinct_map_filter_le1 [OF assms(1), of "(uid, key)"]
  have le: "length (filter (\<lambda>g. user_id g = uid \<and> usage_key g = key) (grade_rows st)) \<le> 1"
    by simp
  from assms(2) have ne: "filter (\<lambda>g. user_id g = uid \<and> usage_key g = key) (grade_rows st) \<noteq> []"
    by (auto simp: grade_exists_def list_ex_iff filter_empty_conv)
  show ?thesis
  proof (cases "filter (\<lambda>g. user_id g = uid \<and> usage_key g = key) (grade_rows st)")
    case Nil
    with ne show ?thesis by simp
  next
    case (Cons y ys)
    with le have "ys = []" by simp
    with Cons show ?thesis by (simp add: get_grade_def)
  qed
qed

subsection \<open>The first and the second resolution\<close>

lemma create_from_blockrecords_present:
  assumes "distinct (map hashed (visible_blocks_rows st))"
    and "to_hash (BlockRecordSet records) \<in> set (map hashed (visible_blocks_rows st))"
  shows "\<exists>row. create_from_blockrecords st records = (Inr row, st)
               \<and> hashed row = to_hash (BlockRecordSet records)"
  unfolding create_from_blockrecords_def Let_def
  by (rule get_or_create_present [OF assms])

lemma create_from_blockrecords_conflict:
  assumes "to_hash (BlockRecordSet records) \<notin> set (map hashed (visible_blocks_rows st))"
    and "to_hash (BlockRecordSet records) \<in> set (concurrent_hashes st)"
  shows "create_from_blockrecords st records = (Inl IntegrityError, st)"
  unfolding create_from_blockrecords_def Let_def
  by (rule get_or_create_conflict [OF assms])

lemma create_from_blockrecords_fresh:
  assumes "to_hash (BlockRecordSet records) \<notin> set (map hashed (visible_blocks_rows st))"
    and "to_hash (BlockRecordSet records) \<notin> set (concurrent_hashes st)"
  shows "create_from_blockrecords st records =
           (Inr \<lparr>blocks_json = to_json (BlockRecordSet records), hashed = to_hash (BlockRecordSet records)\<rparr>,
            st\<lparr>visible_blocks_rows := visible_blocks_rows st @
                 [\<lparr>blocks_json = to_json (BlockRecordSet records), hashed = to_hash (BlockRecordSet records)\<rparr>]\<rparr>)"
  unfolding create_from_blockrecords_def Let_def
  by (rule get_or_create_fresh [OF assms])

lemma create_from_blockrecords_IntegrityError:
  "create_from_blockrecords st records = (Inl IntegrityError, st') \<longleftrightarrow>
     st' = st \<and> to_hash (BlockRecordSet records) \<notin> set (map hashed (visible_blocks_rows st))
     \<and> to_hash (BlockRecordSet records) \<in> set (concurrent_hashes st)"
  unfolding create_from_blockrecords_def Let_def
  by (rule get_or_create_IntegrityError)


lemma visible_blocks_hash_of_conflict:
  assumes "to_hash (BlockRecordSet records) \<notin> set (map hashed (visible_blocks_rows st))"
    and "to_hash (BlockRecordSet records) \<in> set (concurrent_hashes st)"
  shows "visible_blocks_hash_of st (BlockRecordSet records) = (Inr (to_hash (BlockRecordSet records)), st)"
  using create_from_blockrecords_conflict [OF assms]
  by (simp add: visible_blocks_hash_of_def create_from_blockrecords_set)

lemma visible_blocks_hash_of_present:
  assumes "distinct (map hashed (visible_blocks_rows st))"
    and "to_hash (BlockRecordSet records) \<in> set (map hashed (visible_blocks_rows st))"
  shows "visible_blocks_hash_of st (BlockRecordSet records) = (Inr (to_hash (BlockRecordSet records)), st)"
  using create_from_blockrecords_present [OF assms]
  by (auto simp: visible_blocks_hash_of_def create_from_blockrecords_set)

lemma visible_blocks_hash_of_fresh:
  assumes "to_hash (BlockRecordSet records) \<notin> set (map hashed (visible_blocks_rows st))"
    and "to_hash (BlockRecordSet records) \<notin> set (concurrent_hashes st)"
  shows "visible_blocks_hash_of st (BlockRecordSet records) =
           (Inr (to_hash (BlockRecordSet records)),
            st\<lparr>visible_blocks_rows := visible_blocks_rows st @
                 [\<lparr>blocks_json = to_json (BlockRecordSet records), hashed = to_hash (BlockRecordSet records)\<rparr>]\<rparr>)"
  using create_from_blockrecords_fresh [OF assms]
  by (simp add: visible_blocks_hash_of_def create_from_blockrecords_set)

lemma resolved_frame:
  "grade_rows (resolved st records) = grade_rows st"
  "log_records (resolved st records) = log_records st"
  "concurrent_hashes (resolved st records) = concurrent_hashes st"
  "next_id (resolved st records) = next_id st"
  by (simp_all add: resolved_def Let_def)

lemma visible_blocks_hash_of_wf:
  assumes "distinct (map hashed (visible_blocks_rows st))"
  shows "visible_blocks_hash_of st (BlockRecordSet records) =
           (Inr (to_hash (BlockRecordSet records)), resolved st records)"
proof -
  let ?h = "to_hash (BlockRecordSet records)"
  consider (present) "?h \<in> set (map hashed (visible_blocks_rows st))"
    | (conflict) "?h \<notin> set (map hashed (visible_blocks_rows st))" "?h \<in> set (concurrent_hashes st)"
    | (fresh) "?h \<notin> set (map hashed (visible_blocks_rows st))" "?h \<notin> set (concurrent_hashes st)"
    by blast
  then show ?thesis
  proof cases
    case present
    with visible_blocks_hash_of_present [OF assms present] show ?thesis
      by (simp add: resolved_def)
  next
    case conflict
    with visible_blocks_hash_of_conflict [OF conflict] show ?thesis
      by (simp add: resolved_def)
  next
    case fresh
    with visible_blocks_hash_of_fresh [OF fresh] show ?thesis
      by (simp add: resolved_def)
  qed
qed



lemma resolved_idem:
  "resolved (resolved st records) records = resolved st records"
  by (auto simp: resolved_def Let_def)


subsection \<open>Update\<close>

lemma update_DoesNotExist:
  "\<not> grade_exists st (kw_user_id kw) (kw_usage_key kw) \<Longrightarrow> update st kw = (Inl DoesNotExist, st)"
  by (simp add: update_def get_grade_absent [symmetric])

lemma update_conflict:
  assumes "get_grade st (kw_user_id kw) (kw_usage_key kw) = Inr grade"
    and "to_hash (BlockRecordSet (kw_visible_blocks kw)) \<notin> set (map hashed (visible_blocks_rows st))"
    and "to_hash (BlockRecordSet (kw_visible_blocks kw)) \<in> set (concurrent_hashes st)"
  shows "update st kw =
           (Inl IntegrityError, st\<lparr>log_records := log_records st @ [(ERROR, race_message)]\<rparr>)"
  using assms(1) visible_blocks_hash_of_conflict [OF assms(2,3)]
    create_from_blockrecords_conflict [OF assms(2,3)]
  by (simp add: update_def create_from_blockrecords_set)

lemma wf_state_distinct_hashed:
  "wf_state st \<Longrightarrow> distinct (map hashed (visible_blocks_rows st))"
  by (simp add: wf_state_def)


lemma wf_state_course_id:
  "wf_state st \<Longrightarrow> g \<in> set (grade_rows st) \<Longrightarrow> course_id g = course_key (usage_key g)"
  by (auto simp: wf_state_def wf_grade_def list_all_iff)







lemma wf_state_replace:
  assumes wf: "wf_state st"
    and mem: "g \<in> set (grade_rows st)"
    and g': "user_id g' = user_id g" "usage_key g' = usage_key g" "course_id g' = course_id g"
            "grade_id g' = grade_id g"
  shows "wf_state (st\<lparr>grade_rows := map (\<lambda>row. if grade_id row = grade_id g then g' else row)
                                       (grade_rows st)\<rparr>)"
proof -
  let ?f = "\<lambda>row. if grade_id row = grade_id g then g' else row"
  from wf have inj: "inj_on grade_id (set (grade_rows st))"
    by (simp add: wf_state_def distinct_map)
  have same: "\<And>row. row \<in> set (grade_rows st) \<Longrightarrow> grade_id row = grade_id g \<Longrightarrow> row = g"
    using inj mem by (auto dest: inj_onD)
  have ids: "map (grade_id \<circ> ?f) (grade_rows st) = map grade_id (grade_rows st)"
    using g'(4) by (intro map_cong) auto
  have keys: "map ((\<lambda>g. (user_id g, usage_key g)) \<circ> ?f) (grade_rows st) =
              map (\<lambda>g. (user_id g, usage_key g)) (grade_rows st)"
    using same g'(1,2) by (intro map_cong) auto
  have "wf_grade (next_id st) (?f row)" if "row \<in> set (grade_rows st)" for row
  proof -
    from wf that have w: "wf_grade (next_id st) row"
      by (simp add: wf_state_def list_all_iff)
    show ?thesis
    proof (cases "grade_id row = grade_id g")
      case True
      with same that have "row = g" by simp
      with w g'(2,3,4) True show ?thesis by (simp add: wf_grade_def)
    next
      case False
      with w show ?thesis by simp
    qed
  qed
  then have all: "list_all (wf_grade (next_id st)) (map ?f (grade_rows st))"
    unfolding list_all_iff set_map by blast
  from wf all show ?thesis
    by (simp add: wf_state_def ids keys)
qed



subsection \<open>Create\<close>

lemma create_unfold:
  assumes "distinct (map hashed (visible_blocks_rows st))"
  shows "create st kw =
           (case full_clean (resolved st (kw_visible_blocks kw)) (stored_grade None kw) of
              Inl e \<Rightarrow> (Inl e, resolved st (kw_visible_blocks kw))
            | Inr _ \<Rightarrow> save (resolved st (kw_visible_blocks kw)) (stored_grade None kw))"
  by (simp add: create_def visible_blocks_hash_of_wf [OF assms] stored_grade_def Let_def
           cong: sum.case_cong)

lemma full_clean_error: "full_clean st g = Inl e \<Longrightarrow> e = ValidationError"
  by (auto simp: full_clean_def split: if_splits)

lemma create_existing:
  assumes wf: "wf_state st"
    and ex: "grade_exists st (kw_user_id kw) (kw_usage_key kw)"
  shows "create st kw = (Inl ValidationError, resolved st (kw_visible_blocks kw))"
proof -
  from ex obtain g where g: "g \<in> set (grade_rows st)" "user_id g = kw_user_id kw"
      "usage_key g = kw_usage_key kw"
    by (auto simp: grade_exists_def list_ex_iff)
  from wf_state_course_id [OF wf g(1)] g
  have "same_key (stored_grade None kw) g"
    by (simp add: same_key_def stored_grade_def)
  with g(1) have "list_ex (\<lambda>g'. same_key (stored_grade None kw) g'
       \<and> (grade_id (stored_grade None kw) = None \<or> grade_id g' \<noteq> grade_id (stored_grade None kw)))
       (grade_rows (resolved st (kw_visible_blocks kw)))"
    by (auto simp: list_ex_iff resolved_frame stored_grade_def)
  then have "full_clean (resolved st (kw_visible_blocks kw)) (stored_grade None kw) = Inl ValidationError"
    by (simp add: full_clean_def)
  then show ?thesis
    by (simp add: create_unfold [OF wf_state_distinct_hashed [OF wf]])
qed






subsection \<open>The invariant is kept\<close>

lemma wf_state_log: "wf_state (st\<lparr>log_records := l\<rparr>) = wf_state st"
  by (simp add: wf_state_def)


lemma get_or_create_state:
  "get_or_create st h j = (r, st') \<Longrightarrow>
     st' = st \<or> st' = st\<lparr>visible_blocks_rows := visible_blocks_rows st @ [\<lparr>blocks_json = j, hashed = h\<rparr>]\<rparr>"
  using get_visible_blocks_cases [of st h]
  by (auto simp: get_or_create_def insert_visible_blocks_def split: if_splits)

lemma second_conflict_first_conflict:
  assumes "fst (create_from_blockrecords
                  (snd (visible_blocks_hash_of st (BlockRecordSet records)))
                  (BlockRecordSet records)) = Inl IntegrityError"
  shows "to_hash (BlockRecordSet records) \<notin> set (map hashed (visible_blocks_rows st))
       \<and> to_hash (BlockRecordSet records) \<in> set (concurrent_hashes st)"
proof -
  let ?h = "to_hash (BlockRecordSet records)"
  let ?j = "to_json (BlockRecordSet records)"
  obtain r st1 where first: "get_or_create st ?h ?j = (r, st1)"
    by (cases "get_or_create st ?h ?j")
  then have snd1: "snd (visible_blocks_hash_of st (BlockRecordSet records)) = st1"
    by (auto simp: visible_blocks_hash_of_def create_from_blockrecords_def BlockRecordSet_idem
             split: sum.splits error.splits)
  obtain st2 where "get_or_create st1 ?h ?j = (Inl IntegrityError, st2)"
    using assms unfolding snd1 create_from_blockrecords_def Let_def BlockRecordSet_idem
    by (cases "get_or_create st1 ?h ?j") auto
  then have c1: "?h \<notin> set (map hashed (visible_blocks_rows st1))" "?h \<in> set (concurrent_hashes st1)"
    by (simp_all add: get_or_create_IntegrityError)
  from get_or_create_state [OF first] c1 show ?thesis
    by auto
qed

subsection \<open>The claims about \<^verbatim>\<open>update\<close>, \<^verbatim>\<open>create\<close> and \<^verbatim>\<open>save_grade\<close>\<close>

lemma BlockRecordSet_single [simp]: "BlockRecordSet [x] = [x]"
  by (simp add: BlockRecordSet_def)

lemma BlockRecordSet_Nil [simp]: "BlockRecordSet [] = []"
  by (simp add: BlockRecordSet_def)

text \<open>
  C3. If, during \<^verbatim>\<open>update\<close> of an existing grade row, the second resolution of the visible
  blocks reports a uniqueness conflict (\<^verbatim>\<open>IntegrityError\<close>), then \<^verbatim>\<open>update\<close> logs one
  record at error severity and raises that error again, and nothing but the log has
  changed: the grade rows are as before, and the row read back is the row that was there.
\<close>

theorem update_second_conflict_reraises:
  assumes "get_grade st (kw_user_id kw) (kw_usage_key kw) = Inr grade"
    and "fst (create_from_blockrecords
                (snd (visible_blocks_hash_of st (BlockRecordSet (kw_visible_blocks kw))))
                (BlockRecordSet (kw_visible_blocks kw))) = Inl IntegrityError"
  shows "update st kw =
           (Inl IntegrityError, st\<lparr>log_records := log_records st @ [(ERROR, race_message)]\<rparr>)
       \<and> grade_rows (snd (update st kw)) = grade_rows st
       \<and> read (snd (update st kw)) (kw_user_id kw) (kw_usage_key kw) = Inr grade"
proof -
  from second_conflict_first_conflict [OF assms(2)]
  have "update st kw =
          (Inl IntegrityError, st\<lparr>log_records := log_records st @ [(ERROR, race_message)]\<rparr>)"
    by (intro update_conflict [OF assms(1)]) simp_all
  moreover have "get_grade (st\<lparr>log_records := log_records st @ [(ERROR, race_message)]\<rparr>)
                   (kw_user_id kw) (kw_usage_key kw) = get_grade st (kw_user_id kw) (kw_usage_key kw)"
    by (simp add: get_grade_def)
  ultimately show ?thesis
    using assms(1) by (simp add: read_def)
qed

lemma get_grade_state_with_race:
  "get_grade state_with_race 42 seq1 = Inr (stored_grade (Some 1) grade_8_of_10)"
  by (simp add: get_grade_def state_with_race_def stored_grade_def grade_8_of_10_def)

lemma second_resolution_state_with_race:
  "fst (create_from_blockrecords
          (snd (visible_blocks_hash_of state_with_race (BlockRecordSet [block_b1])))
          (BlockRecordSet [block_b1])) = Inl IntegrityError"
  by (simp add: visible_blocks_hash_of_def create_from_blockrecords_def get_or_create_def
                get_visible_blocks_def insert_visible_blocks_def state_with_race_def)

theorem update_second_conflict_reraises_witness:
  "get_grade state_with_race (kw_user_id grade_9_of_10) (kw_usage_key grade_9_of_10) =
     Inr (stored_grade (Some 1) grade_8_of_10)
   \<and> fst (create_from_blockrecords
            (snd (visible_blocks_hash_of state_with_race (BlockRecordSet (kw_visible_blocks grade_9_of_10))))
            (BlockRecordSet (kw_visible_blocks grade_9_of_10))) = Inl IntegrityError
   \<and> update state_with_race grade_9_of_10 =
       (Inl IntegrityError,
        state_with_race\<lparr>log_records := log_records state_with_race @ [(ERROR, race_message)]\<rparr>)
   \<and> grade_rows (snd (update state_with_race grade_9_of_10)) = grade_rows state_with_race
   \<and> read (snd (update state_with_race grade_9_of_10))
        (kw_user_id grade_9_of_10) (kw_usage_key grade_9_of_10) =
       Inr (stored_grade (Some 1) grade_8_of_10)"
proof -
  have a: "get_grade state_with_race (kw_user_id grade_9_of_10) (kw_usage_key grade_9_of_10) =
             Inr (stored_grade (Some 1) grade_8_of_10)"
    using get_grade_state_with_race by (simp add: grade_9_of_10_def)
  have b: "fst (create_from_blockrecords
            (snd (visible_blocks_hash_of state_with_race (BlockRecordSet (kw_visible_blocks grade_9_of_10))))
            (BlockRecordSet (kw_visible_blocks grade_9_of_10))) = Inl IntegrityError"
    using second_resolution_state_with_race by (simp add: grade_9_of_10_def)
  from update_second_conflict_reraises [OF a b] a b show ?thesis
    by blast
qed



lemma wf_state_with_grade: "wf_state state_with_grade"
  by (simp add: wf_state_def state_with_grade_def wf_grade_def stored_grade_def grade_8_of_10_def)





text \<open>
  C5. For every user and usage key: \<^verbatim>\<open>update\<close> when no grade row exists fails with
  \<^verbatim>\<open>DoesNotExist\<close> (the specification's NotFoundError) and changes nothing, so it has not
  created the row; \<^verbatim>\<open>create\<close> when a grade row exists fails with the
  \<^verbatim>\<open>ValidationError\<close> that \<^verbatim>\<open>full_clean\<close> raises for a taken unique key (the
  specification's DuplicateKeyError) and leaves the grade rows as they were, so it has not
  updated the row.
\<close>

theorem update_absent_create_existing_fail:
  "(\<not> grade_exists st (kw_user_id kw) (kw_usage_key kw) \<longrightarrow>
      update st kw = (Inl DoesNotExist, st))
   \<and> (wf_state st \<and> grade_exists st (kw_user_id kw) (kw_usage_key kw) \<longrightarrow>
        fst (create st kw) = Inl ValidationError
        \<and> grade_rows (snd (create st kw)) = grade_rows st)"
  by (simp add: update_DoesNotExist create_existing resolved_frame)

lemma absent_empty_state: "\<not> grade_exists empty_state (kw_user_id grade_8_of_10) (kw_usage_key grade_8_of_10)"
  by (simp add: grade_exists_def empty_state_def)

lemma present_state_with_grade:
  "grade_exists state_with_grade (kw_user_id grade_8_of_10) (kw_usage_key grade_8_of_10)"
  by (simp add: grade_exists_def state_with_grade_def stored_grade_def)

theorem update_absent_create_existing_fail_witness:
  "\<not> grade_exists empty_state (kw_user_id grade_8_of_10) (kw_usage_key grade_8_of_10)
   \<and> update empty_state grade_8_of_10 = (Inl DoesNotExist, empty_state)
   \<and> wf_state state_with_grade
   \<and> grade_exists state_with_grade (kw_user_id grade_8_of_10) (kw_usage_key grade_8_of_10)
   \<and> fst (create state_with_grade grade_8_of_10) = Inl ValidationError
   \<and> grade_rows (snd (create state_with_grade grade_8_of_10)) = grade_rows state_with_grade"
  using update_absent_create_existing_fail [of empty_state grade_8_of_10]
    update_absent_create_existing_fail [of state_with_grade grade_8_of_10]
    absent_empty_state present_state_with_grade wf_state_with_grade
  by blast

subsection \<open>\<^verbatim>\<open>save_grade\<close>\<close>














subsection \<open>The canonical order\<close>








subsection \<open>The constructor\<close>

lemma foldl_frozenset_add_item_keys:
  "py_key ` set (foldl frozenset_add_item acc xs) = py_key ` set acc \<union> py_key ` set xs"
  by (induction xs arbitrary: acc) auto

lemma foldl_frozenset_add_item_distinct:
  "distinct (map py_key acc) \<Longrightarrow> distinct (map py_key (foldl frozenset_add_item acc xs))"
  by (induction xs arbitrary: acc) auto

lemma foldl_frozenset_add_item_records:
  "foldl frozenset_add_item (map Record acc) (map Record xs) = map Record (foldl frozenset_add acc xs)"
proof (induction xs arbitrary: acc)
  case Nil
  then show ?case by simp
next
  case (Cons x xs)
  have mem: "py_key (Record x) \<in> py_key ` set (map Record acc) \<longleftrightarrow> x \<in> set acc"
    by (auto simp: image_image)
  show ?case
  proof (cases "x \<in> set acc")
    case True
    with mem Cons [of acc] show ?thesis by simp
  next
    case False
    with mem Cons [of "acc @ [x]"] show ?thesis by simp
  qed
qed

lemma BlockRecordSet_init_records:
  "BlockRecordSet_init (map Record records) = Inr (map Record (BlockRecordSet records))"
  using foldl_frozenset_add_item_records [of "[]" records]
  by (simp add: BlockRecordSet_init_def BlockRecordSet_def list_all_iff)

text \<open>
  C9 as it is stated fails: the constructor does not look at its items. Here the second
  item is \<^verbatim>\<open>None\<close>, not a block record, and the set is constructed all the same.
\<close>

theorem construct_accepts_malformed_item:
  "BlockRecordSet_init [Record block_b1, Other JNull] = Inr [Record block_b1, Other JNull]"
  by (simp add: BlockRecordSet_init_def)

text \<open>
  C9, amended. Constructing a set from an iterable removes duplicates by value and checks
  nothing else: it fails, with Python's \<^verbatim>\<open>TypeError\<close>, exactly when an item is not
  hashable, whether the items are block records or not; from an iterable of block records
  it always makes the set of the different records of the iterable.
\<close>

theorem construct_deduplicates_without_validation:
  "(list_all hashable iterable \<longrightarrow>
      (\<exists>s. BlockRecordSet_init iterable = Inr s \<and> distinct (map py_key s)
           \<and> py_key ` set s = py_key ` set iterable))
   \<and> (\<not> list_all hashable iterable \<longrightarrow> BlockRecordSet_init iterable = Inl TypeError)
   \<and> BlockRecordSet_init (map Record records) = Inr (map Record (BlockRecordSet records))
   \<and> distinct (BlockRecordSet records)
   \<and> set (BlockRecordSet records) = set records"
proof (intro conjI impI)
  assume "list_all hashable iterable"
  with foldl_frozenset_add_item_keys [of "[]" iterable]
    foldl_frozenset_add_item_distinct [of "[]" iterable]
  show "\<exists>s. BlockRecordSet_init iterable = Inr s \<and> distinct (map py_key s)
           \<and> py_key ` set s = py_key ` set iterable"
    by (simp add: BlockRecordSet_init_def)
next
  assume "\<not> list_all hashable iterable"
  then show "BlockRecordSet_init iterable = Inl TypeError"
    by (simp add: BlockRecordSet_init_def)
next
  show "BlockRecordSet_init (map Record records) = Inr (map Record (BlockRecordSet records))"
    by (rule BlockRecordSet_init_records)
  show "distinct (BlockRecordSet records)"
    by (rule distinct_BlockRecordSet)
  show "set (BlockRecordSet records) = set records"
    by (rule set_BlockRecordSet)
qed

theorem construct_deduplicates_without_validation_witness:
  "list_all hashable [Record block_b1, Other JNull, Record block_b1]
   \<and> (\<exists>s. BlockRecordSet_init [Record block_b1, Other JNull, Record block_b1] = Inr s
          \<and> distinct (map py_key s)
          \<and> py_key ` set s = py_key ` set [Record block_b1, Other JNull, Record block_b1])
   \<and> \<not> list_all hashable [Record block_b1, Other (JArray [])]
   \<and> BlockRecordSet_init [Record block_b1, Other (JArray [])] = Inl TypeError
   \<and> BlockRecordSet_init [Record block_b1, Other JNull, Record block_b1] =
       Inr [Record block_b1, Other JNull]"
proof -
  have a: "list_all hashable [Record block_b1, Other JNull, Record block_b1]"
    by simp
  have b: "\<not> list_all hashable [Record block_b1, Other (JArray [])]"
    by simp
  have c: "BlockRecordSet_init [Record block_b1, Other JNull, Record block_b1] =
             Inr [Record block_b1, Other JNull]"
    by (simp add: BlockRecordSet_init_def)
  from construct_deduplicates_without_validation
         [of "[Record block_b1, Other JNull, Record block_b1]" "[]"]
       construct_deduplicates_without_validation [of "[Record block_b1, Other (JArray [])]" "[]"]
       a b c
  show ?thesis
    by blast
qed

subsection \<open>The content hash\<close>

lemma index_of_nth: "distinct xs \<Longrightarrow> n < length xs \<Longrightarrow> index_of (xs ! n) xs = Some n"
proof (induction xs arbitrary: n)
  case Nil
  then show ?case by simp
next
  case (Cons x xs)
  show ?case
  proof (cases n)
    case 0
    then show ?thesis by simp
  next
    case (Suc k)
    with Cons.prems have "k < length xs" "xs ! k \<noteq> x"
      by auto
    with Cons Suc show ?thesis by auto
  qed
qed

lemma length_b64_alphabet: "length b64_alphabet = 64"
  by (simp add: b64_alphabet_def)

lemma distinct_b64_alphabet: "distinct b64_alphabet"
  by (simp add: b64_alphabet_def)

lemma unat_and_63: "unat (v AND 63 :: byte) < 64"
proof -
  have "unat (v AND 63) \<le> unat (63 :: byte)"
    by (rule word_and_le1 [THEN word_le_nat_alt [THEN iffD1]])
  then show ?thesis by simp
qed

lemma b64_value_b64_char: "b64_value (b64_char v) = Some (v AND 63)"
  by (simp add: b64_value_def b64_char_def index_of_nth distinct_b64_alphabet
                length_b64_alphabet unat_and_63)

lemma b64_char_in_alphabet: "b64_char v \<in> set b64_alphabet"
  by (simp add: b64_char_def length_b64_alphabet unat_and_63)

lemma eq_not_in_alphabet: "CHR ''='' \<notin> set b64_alphabet"
  by (simp add: b64_alphabet_def)

lemma byte_eqI:
  assumes "\<And>n. n \<in> {0, 1, 2, 3, 4, 5, 6, 7 :: nat} \<Longrightarrow> bit a n = bit b n"
  shows "a = (b :: byte)"
proof (rule bit_word_eqI)
  fix n assume "n < LENGTH(8)"
  then have "n \<in> {0, 1, 2, 3, 4, 5, 6, 7 :: nat}"
    by auto
  then show "bit a n = bit b n"
    by (rule assms)
qed

lemma byte0: "push_bit 2 (drop_bit 2 a AND 63) OR drop_bit 4 ((push_bit 4 (a AND 3) OR drop_bit 4 b) AND 63) = (a :: byte)"
  by (rule byte_eqI) (auto simp: bit_simps numeral_2_eq_2 [symmetric] numeral_3_eq_3 [symmetric])

lemma byte0': "push_bit 2 (drop_bit 2 a AND 63) OR drop_bit 4 (push_bit 4 (a AND 3) AND 63) = (a :: byte)"
  by (rule byte_eqI) (auto simp: bit_simps numeral_2_eq_2 [symmetric] numeral_3_eq_3 [symmetric])

lemma byte1: "push_bit 4 ((push_bit 4 (a AND 3) OR drop_bit 4 b) AND 63) OR drop_bit 2 ((push_bit 2 (b AND 15) OR drop_bit 6 c) AND 63) = (b :: byte)"
  by (rule byte_eqI) (auto simp: bit_simps numeral_2_eq_2 [symmetric] numeral_3_eq_3 [symmetric])

lemma byte1': "push_bit 4 ((push_bit 4 (a AND 3) OR drop_bit 4 b) AND 63) OR drop_bit 2 (push_bit 2 (b AND 15) AND 63) = (b :: byte)"
  by (rule byte_eqI) (auto simp: bit_simps numeral_2_eq_2 [symmetric] numeral_3_eq_3 [symmetric])

lemma byte2: "push_bit 6 ((push_bit 2 (b AND 15) OR drop_bit 6 c) AND 63) OR ((c AND 63) AND 63) = (c :: byte)"
  by (rule byte_eqI) (auto simp: bit_simps numeral_2_eq_2 [symmetric] numeral_3_eq_3 [symmetric])


lemma b64_char_not_pad: "b64_char v \<noteq> CHR ''=''"
  using b64_char_in_alphabet [of v] eq_not_in_alphabet by auto

lemma b64decode_b64encode: "b64decode (b64encode bs) = Some bs"
proof (induction bs rule: b64encode.induct)
  case 1
  then show ?case by simp
next
  case (2 a)
  have "b64decode (b64encode [a]) =
          Some [push_bit 2 (drop_bit 2 a AND 63) OR drop_bit 4 (push_bit 4 (a AND 3) AND 63)]"
    by (simp only: b64encode.simps b64decode.simps b64_value_b64_char prod.case option.case
                   simp_thms if_True)
  then show ?case
    by (simp only: byte0')
next
  case (3 a b)
  have "b64decode (b64encode [a, b]) =
          Some [push_bit 2 (drop_bit 2 a AND 63)
                  OR drop_bit 4 ((push_bit 4 (a AND 3) OR drop_bit 4 b) AND 63),
                push_bit 4 ((push_bit 4 (a AND 3) OR drop_bit 4 b) AND 63)
                  OR drop_bit 2 (push_bit 2 (b AND 15) AND 63)]"
    by (simp only: b64encode.simps b64decode.simps b64_value_b64_char b64_char_not_pad
                   prod.case option.case simp_thms if_True if_False)
  then show ?case
    by (simp only: byte0 byte1')
next
  case (4 a b c rest)
  have "b64decode (b64encode (a # b # c # rest)) =
          map_option
            ((@) [push_bit 2 (drop_bit 2 a AND 63)
                    OR drop_bit 4 ((push_bit 4 (a AND 3) OR drop_bit 4 b) AND 63),
                  push_bit 4 ((push_bit 4 (a AND 3) OR drop_bit 4 b) AND 63)
                    OR drop_bit 2 ((push_bit 2 (b AND 15) OR drop_bit 6 c) AND 63),
                  push_bit 6 ((push_bit 2 (b AND 15) OR drop_bit 6 c) AND 63)
                    OR ((c AND 63) AND 63)])
            (b64decode (b64encode rest))"
    by (simp only: b64encode.simps b64decode.simps b64_value_b64_char b64_char_not_pad
                   prod.case option.case simp_thms if_True if_False append.simps)
  then show ?case
    by (simp only: byte0 byte1 byte2 4 option.map append.simps)
qed

lemma set_b64encode: "set (b64encode bs) \<subseteq> set b64_alphabet \<union> {CHR ''=''}"
  by (induction bs rule: b64encode.induct) (auto simp: b64_char_in_alphabet)

text \<open>
  C7. For every block record set, \<^verbatim>\<open>to_hash\<close> is the base64 encoding of the SHA-256 digest
  of the bytes of \<^verbatim>\<open>to_json\<close>: the digest has 32 bytes, decoding the result gives the
  digest back, and the result is written with the 64 characters of the standard alphabet
  and the padding character only, so it has no line break and no \<^verbatim>\<open>$\<close> of an algorithm
  label.
\<close>

theorem to_hash_base64_of_sha256_digest:
  "to_hash self = b64encode (sha256 (map byte_of_char (to_json self)))
   \<and> length (sha256 (map byte_of_char (to_json self))) = 32
   \<and> b64decode (to_hash self) = Some (sha256 (map byte_of_char (to_json self)))
   \<and> set (to_hash self) \<subseteq> set b64_alphabet \<union> {CHR ''=''}
   \<and> CHR 0x0A \<notin> set (to_hash self)
   \<and> CHR ''$'' \<notin> set (to_hash self)"
proof -
  have nl: "CHR 0x0A \<notin> set b64_alphabet \<union> {CHR ''=''}"
    by (simp add: b64_alphabet_def)
  have dl: "CHR ''$'' \<notin> set b64_alphabet \<union> {CHR ''=''}"
    by (simp add: b64_alphabet_def)
  from nl dl set_b64encode [of "sha256 (map byte_of_char (to_json self))"]
  show ?thesis
    by (auto simp: to_hash_def length_sha256 b64decode_b64encode)
qed

end
